theory Spec2Isabelle
  imports Main "HOL-Library.Word"
begin

section \<open>Python text primitives used by \<open>app.py\<close>\<close>

text \<open>
  Text is modelled as \<open>string\<close>: a list of characters with code points 0 to 255;
  text with other code points is outside the model. The primitives below follow
  CPython's \<open>str\<close> methods on such text.
\<close>

text \<open>\<open>s.startswith(p)\<close>\<close>

definition startswith :: "string \<Rightarrow> string \<Rightarrow> bool" where
  "startswith s p = (take (length p) s = p)"

text \<open>
  \<open>s.split(sep)\<close> for a one-character separator: the pieces between the separators,
  empty pieces included; never the empty list.
\<close>

fun str_split :: "char \<Rightarrow> string \<Rightarrow> string list" where
  "str_split sep [] = [[]]"
| "str_split sep (c # cs) =
     (if c = sep then [] # str_split sep cs
      else (case str_split sep cs of
              [] \<Rightarrow> [[c]]
            | l # ls \<Rightarrow> (c # l) # ls))"

text \<open>
  \<open>s.replace(old, new)\<close>: every occurrence of \<open>old\<close>, found from left to right without
  overlap, is replaced by \<open>new\<close>; an empty \<open>old\<close> matches before every character and
  at the end.
\<close>

function str_replace :: "string \<Rightarrow> string \<Rightarrow> string \<Rightarrow> string" where
  "str_replace old new [] = (if old = [] then new else [])"
| "str_replace old new (c # cs) =
     (if old = [] then new @ c # str_replace old new cs
      else if startswith (c # cs) old
        then new @ str_replace old new (drop (length old) (c # cs))
      else c # str_replace old new cs)"
  by pat_completeness auto
termination
  by (relation "measure (\<lambda>(old, new, s). length s)") auto

text \<open>
  \<open>c.isspace()\<close> on code points below 256: tab to carriage return, the four
  separators 28 to 31, space, NEL (133) and the no-break space (160).
\<close>

definition isspace :: "char \<Rightarrow> bool" where
  "isspace c = (let n = (of_char c :: nat)
                in (9 \<le> n \<and> n \<le> 13) \<or> (28 \<le> n \<and> n \<le> 32) \<or> n = 133 \<or> n = 160)"

text \<open>\<open>s.strip()\<close>: whitespace removed at both ends.\<close>

definition str_strip :: "string \<Rightarrow> string" where
  "str_strip s = rev (dropWhile isspace (rev (dropWhile isspace s)))"

subsection \<open>\<open>int(s)\<close>\<close>

text \<open>
  \<open>int\<close> on text, base 10: optional whitespace, an optional sign, decimal digits with
  single underscores allowed between digits, optional whitespace. Anything else is a
  \<open>ValueError\<close>, here \<open>None\<close>. The whitespace \<open>int\<close> skips is narrower than
  \<open>isspace\<close>: the separators 28 to 31 are not skipped.
\<close>

definition int_space :: "char \<Rightarrow> bool" where
  "int_space c = (let n = (of_char c :: nat)
                  in (9 \<le> n \<and> n \<le> 13) \<or> n = 32 \<or> n = 133 \<or> n = 160)"

definition isdigit :: "char \<Rightarrow> bool" where
  "isdigit c = (let n = (of_char c :: nat) in 48 \<le> n \<and> n \<le> 57)"

definition digit_or_underscore :: "char \<Rightarrow> bool" where
  "digit_or_underscore c = (isdigit c \<or> c = CHR ''_'')"

text \<open>
  A digit run is well formed when it is not empty, starts and ends with a digit, and
  has no two underscores in a row.
\<close>

fun valid_digits :: "string \<Rightarrow> bool" where
  "valid_digits [] = False"
| "valid_digits [c] = isdigit c"
| "valid_digits (c # d # cs) =
     (isdigit c \<and> (if d = CHR ''_'' then valid_digits cs else valid_digits (d # cs)))"

definition digits_value :: "string \<Rightarrow> nat" where
  "digits_value ds = foldl (\<lambda>acc c. 10 * acc + (of_char c - 48)) 0 ds"

text \<open>
  CPython refuses a decimal literal of more than \<open>sys.get_int_max_str_digits()\<close>
  digits (4300 unless configured; 0 switches the check off; literals of up to 640
  digits are never refused) with a \<open>ValueError\<close>. The setting is the parameter
  \<open>lim\<close>.
\<close>

definition too_many_digits :: "nat \<Rightarrow> nat \<Rightarrow> bool" where
  "too_many_digits lim n = (640 < n \<and> 0 < lim \<and> lim < n)"

definition py_int :: "nat \<Rightarrow> string \<Rightarrow> int option" where
  "py_int lim s =
     (let t = dropWhile int_space s;
          neg = (case t of [] \<Rightarrow> False | c # _ \<Rightarrow> c = CHR ''-'');
          u = (case t of [] \<Rightarrow> []
               | c # r \<Rightarrow> if c = CHR ''+'' \<or> c = CHR ''-'' then r else t);
          body = takeWhile digit_or_underscore u;
          rest = dropWhile digit_or_underscore u;
          ds = filter isdigit body
      in if \<not> valid_digits body then None
         else if too_many_digits lim (length ds) then None
         else if dropWhile int_space rest \<noteq> [] then None
         else Some (if neg then - int (digits_value ds) else int (digits_value ds)))"

section \<open>Parsing the model's reply (\<open>analyze_progress_with_gpt4\<close>, lines 168 to 194)\<close>

text \<open>The four local variables of the scan.\<close>

record locals =
  progress_percent :: int
  completed_var :: string
  missing_var :: string
  notes_var :: string

text \<open>The dictionary the function returns, one field per key.\<close>

record analysis_result =
  progress :: int
  completed :: string
  missing :: string
  "notes" :: string
  raw_response :: string

definition init_locals :: locals where
  "init_locals = \<lparr>progress_percent = 0, completed_var = [], missing_var = [], notes_var = []\<rparr>"

text \<open>
  \<open>line.replace('PROGRESS:', '').strip().replace('%', '')\<close>, the text handed to
  \<open>int\<close>.
\<close>

definition progress_str :: "string \<Rightarrow> string" where
  "progress_str line = str_replace ''%'' [] (str_strip (str_replace ''PROGRESS:'' [] line))"

text \<open>\<open>try: int(progress_str) except: 0\<close>\<close>

definition int_or_zero :: "nat \<Rightarrow> string \<Rightarrow> int" where
  "int_or_zero lim s = (case py_int lim s of Some n \<Rightarrow> n | None \<Rightarrow> 0)"

text \<open>\<open>line.replace(prefix, '').strip()\<close>, the text stored for the three text fields.\<close>

definition field_text :: "string \<Rightarrow> string \<Rightarrow> string" where
  "field_text prefix line = str_strip (str_replace prefix [] line)"

text \<open>The body of the loop: the \<open>if\<close>/\<open>elif\<close> chain, in the source's order.\<close>

definition parse_line :: "nat \<Rightarrow> string \<Rightarrow> locals \<Rightarrow> locals" where
  "parse_line lim line v =
     (if startswith line ''PROGRESS:'' then
        v\<lparr>progress_percent := int_or_zero lim (progress_str line)\<rparr>
      else if startswith line ''COMPLETED_PARTS:'' then
        v\<lparr>completed_var := field_text ''COMPLETED_PARTS:'' line\<rparr>
      else if startswith line ''MISSING_PARTS:'' then
        v\<lparr>missing_var := field_text ''MISSING_PARTS:'' line\<rparr>
      else if startswith line ''NOTES:'' then
        v\<lparr>notes_var := field_text ''NOTES:'' line\<rparr>
      else v)"

text \<open>The \<open>for\<close> loop over the lines.\<close>

fun parse_lines :: "nat \<Rightarrow> string list \<Rightarrow> locals \<Rightarrow> locals" where
  "parse_lines lim [] v = v"
| "parse_lines lim (line # ls) v = parse_lines lim ls (parse_line lim line v)"

definition parse_response :: "nat \<Rightarrow> string \<Rightarrow> analysis_result" where
  "parse_response lim result_text =
     (let v = parse_lines lim (str_split CHR ''\<newline>'' result_text) init_locals
      in \<lparr>progress = progress_percent v,
          completed = completed_var v,
          missing = missing_var v,
          notes = notes_var v,
          raw_response = result_text\<rparr>)"

section \<open>The image encoder (\<open>encode_image_to_base64\<close>)\<close>

type_synonym byte = "8 word"

text \<open>Exceptions of class \<open>Exception\<close> that the analysis can meet, each with its message.\<close>

datatype exn =
    OSError string
  | OpenAIError string
  | IndexError string
  | AttributeError string

fun exn_str :: "exn \<Rightarrow> string" where
  "exn_str (OSError m) = m"
| "exn_str (OpenAIError m) = m"
| "exn_str (IndexError m) = m"
| "exn_str (AttributeError m) = m"

text \<open>
  What lies outside the repository: Pillow's JPEG writer (\<open>image.save(buffered,
  format="JPEG")\<close> followed by \<open>buffered.getvalue()\<close>), the constructor of the API
  client and the chat-completion call. Each either raises or returns. Images are
  opaque to the code, so their type is a parameter.
\<close>

datatype content_part =
    Text string
  | ImageUrl (url: string) (detail: string)

record message =
  role :: string
  content :: "content_part list"

record request =
  model :: string
  messages :: "message list"
  max_tokens :: nat

text \<open>
  Of the response only \<open>choices[i].message.content\<close> is read; it is absent
  (\<open>None\<close>) or a text.
\<close>

record response =
  choices :: "string option list"

record 'img world =
  jpeg_save :: "'img \<Rightarrow> exn + byte list"
  openai_client :: "string \<Rightarrow> exn + unit"
  chat_create :: "request \<Rightarrow> exn + response"

subsection \<open>\<open>base64.b64encode\<close> and \<open>base64.b64decode\<close>\<close>

definition b64_alphabet :: string where
  "b64_alphabet = ''ABCDEFGHIJKLMNOPQRSTUVWXYZabcdefghijklmnopqrstuvwxyz0123456789+/''"

definition b64_char :: "nat \<Rightarrow> char" where
  "b64_char i = b64_alphabet ! i"

text \<open>The four characters of a 24-bit group, six bits each, most significant first.\<close>

definition b64_quad :: "nat \<Rightarrow> string" where
  "b64_quad n = [b64_char (n div 262144 mod 64), b64_char (n div 4096 mod 64),
                 b64_char (n div 64 mod 64), b64_char (n mod 64)]"

text \<open>
  \<open>b64encode\<close> returns ASCII bytes and \<open>.decode()\<close> turns each into the character
  of the same code; the model produces the characters at once.
\<close>

fun b64encode :: "byte list \<Rightarrow> string" where
  "b64encode [] = []"
| "b64encode [a] = take 2 (b64_quad (unat a * 65536)) @ ''==''"
| "b64encode [a, b] = take 3 (b64_quad (unat a * 65536 + unat b * 256)) @ ''=''"
| "b64encode (a # b # c # bs) =
     b64_quad (unat a * 65536 + unat b * 256 + unat c) @ b64encode bs"

definition b64_index :: "char \<Rightarrow> nat option" where
  "b64_index c = map_of (zip b64_alphabet [0..<64]) c"

text \<open>
  Decoding of padded base64 text as \<open>b64decode\<close> does it on well-formed input;
  \<open>None\<close> for any other text.
\<close>

fun b64decode :: "string \<Rightarrow> byte list option" where
  "b64decode [] = Some []"
| "b64decode (c1 # c2 # c3 # c4 # cs) =
     (if c4 = CHR ''='' then
        (if cs \<noteq> [] then None
         else if c3 = CHR ''='' then
           (case (b64_index c1, b64_index c2) of
              (Some i1, Some i2) \<Rightarrow> Some [of_nat ((i1 * 64 + i2) div 16 mod 256)]
            | _ \<Rightarrow> None)
         else
           (case (b64_index c1, b64_index c2, b64_index c3) of
              (Some i1, Some i2, Some i3) \<Rightarrow>
                (let n = i1 * 4096 + i2 * 64 + i3
                 in Some [of_nat (n div 1024 mod 256), of_nat (n div 4 mod 256)])
            | _ \<Rightarrow> None))
      else
        (case (b64_index c1, b64_index c2, b64_index c3, b64_index c4) of
           (Some i1, Some i2, Some i3, Some i4) \<Rightarrow>
             (let n = i1 * 262144 + i2 * 4096 + i3 * 64 + i4
              in (case b64decode cs of
                    None \<Rightarrow> None
                  | Some r \<Rightarrow>
                      Some (of_nat (n div 65536 mod 256) # of_nat (n div 256 mod 256)
                            # of_nat (n mod 256) # r)))
         | _ \<Rightarrow> None))"
| "b64decode _ = None"

definition encode_image_to_base64 :: "'img world \<Rightarrow> 'img \<Rightarrow> exn + string" where
  "encode_image_to_base64 w img =
     (case jpeg_save w img of
        Inl e \<Rightarrow> Inl e
      | Inr buffered \<Rightarrow> Inr (b64encode buffered))"

section \<open>The request (\<open>analyze_progress_with_gpt4\<close>, lines 102 to 164)\<close>

definition instruction :: string where
  "instruction =
     ''You are analyzing LEGO building progress. I will show you 3 reference images of the completed LEGO structure (from different angles), followed by the user's current progress image.\<newline>''
   @ ''\<newline>''
   @ ''Please analyze:\<newline>''
   @ ''1. What percentage of the structure is complete? (0-100%)\<newline>''
   @ ''2. Which parts are built correctly?\<newline>''
   @ ''3. Which parts are missing or incomplete?\<newline>''
   @ ''4. Any differences in color, position, or brick placement?\<newline>''
   @ ''\<newline>''
   @ ''Provide your response in this exact format:\<newline>''
   @ ''PROGRESS: [number]%\<newline>''
   @ ''COMPLETED_PARTS: [description]\<newline>''
   @ ''MISSING_PARTS: [description]\<newline>''
   @ ''NOTES: [any additional observations in concise form]\<newline>''
   @ ''\<newline>''
   @ ''Here are the reference images of the completed structure:''"

text \<open>\<open>str(i)\<close> for a natural number, as the f-string formats the index.\<close>

definition digit_char :: "nat \<Rightarrow> char" where
  "digit_char d = ''0123456789'' ! d"

fun str_nat :: "nat \<Rightarrow> string" where
  "str_nat n =
     (if n < 10 then [digit_char n]
      else str_nat (n div 10) @ [digit_char (n mod 10)])"

definition reference_label :: "nat \<Rightarrow> string" where
  "reference_label i = ''\<newline>\<newline>Reference Image '' @ str_nat i @ '':''"

definition image_part :: "string \<Rightarrow> content_part" where
  "image_part b64 = ImageUrl (''data:image/jpeg;base64,'' @ b64) ''high''"

text \<open>
  The loop \<open>for i, ref_img in enumerate(reference_images, 1)\<close>; \<open>i\<close> is the index of
  the image at the head of the list, \<open>parts\<close> the content list built so far.
\<close>

fun add_reference_images ::
  "'img world \<Rightarrow> nat \<Rightarrow> 'img list \<Rightarrow> content_part list \<Rightarrow> exn + content_part list" where
  "add_reference_images w i [] parts = Inr parts"
| "add_reference_images w i (ref_img # rest) parts =
     (case encode_image_to_base64 w ref_img of
        Inl e \<Rightarrow> Inl e
      | Inr ref_base64 \<Rightarrow>
          add_reference_images w (Suc i) rest
            (parts @ [Text (reference_label i), image_part ref_base64]))"

definition build_request :: "'img world \<Rightarrow> 'img list \<Rightarrow> 'img \<Rightarrow> exn + request" where
  "build_request w reference_images current_img =
     (case encode_image_to_base64 w current_img of
        Inl e \<Rightarrow> Inl e
      | Inr curr_base64 \<Rightarrow>
          (case add_reference_images w 1 reference_images [Text instruction] of
             Inl e \<Rightarrow> Inl e
           | Inr parts \<Rightarrow>
               Inr \<lparr>model = ''gpt-4o-mini'',
                    messages =
                      [\<lparr>role = ''user'',
                        content = parts
                          @ [Text ''\<newline>\<newline>User's Current Progress Image:'',
                             image_part curr_base64]\<rparr>],
                    max_tokens = 500\<rparr>))"

section \<open>The analysis call and the button that triggers it\<close>

text \<open>The body of the \<open>try\<close> block: the first exception ends it.\<close>

definition analyze_try ::
  "'img world \<Rightarrow> nat \<Rightarrow> 'img list \<Rightarrow> 'img \<Rightarrow> string \<Rightarrow> exn + analysis_result" where
  "analyze_try w lim reference_images current_img api_key =
     (case openai_client w api_key of
        Inl e \<Rightarrow> Inl e
      | Inr client \<Rightarrow>
     (case build_request w reference_images current_img of
        Inl e \<Rightarrow> Inl e
      | Inr req \<Rightarrow>
     (case chat_create w req of
        Inl e \<Rightarrow> Inl e
      | Inr response \<Rightarrow>
     (case choices response of
        [] \<Rightarrow> Inl (IndexError ''list index out of range'')
      | choice # _ \<Rightarrow>
     (case choice of
        None \<Rightarrow>
          Inl (AttributeError ([CHR 0x27] @ ''NoneType'' @ [CHR 0x27]
                 @ '' object has no attribute '' @ [CHR 0x27] @ ''split'' @ [CHR 0x27]))
      | Some result_text \<Rightarrow> Inr (parse_response lim result_text))))))"

text \<open>What the page shows: \<open>st.error(msg)\<close>.\<close>

datatype ui = StError string

text \<open>
  \<open>analyze_progress_with_gpt4\<close>: the result, \<open>None\<close> after an exception, and
  what was shown.
\<close>

definition analyze_progress_with_gpt4 ::
  "'img world \<Rightarrow> nat \<Rightarrow> 'img list \<Rightarrow> 'img \<Rightarrow> string
     \<Rightarrow> analysis_result option \<times> ui list" where
  "analyze_progress_with_gpt4 w lim reference_images current_img api_key =
     (case analyze_try w lim reference_images current_img api_key of
        Inr result \<Rightarrow> (Some result, [])
      | Inl e \<Rightarrow> (None, [StError (''Error analyzing images: '' @ exn_str e)]))"

record 'img session_state =
  current_image :: "'img option"
  progress_result :: "analysis_result option"
  captured_frame :: "'img option"

text \<open>
  A press of the analyze button (lines 271 and 292 to 301). The button exists
  only with a captured image and a non-empty list of reference images; the result is
  stored only \<open>if result\<close>.
\<close>

definition analyze_button ::
  "'img world \<Rightarrow> nat \<Rightarrow> 'img list option \<Rightarrow> string \<Rightarrow> 'img session_state
     \<Rightarrow> 'img session_state \<times> ui list" where
  "analyze_button w lim reference_images api_key st =
     (case current_image st of
        None \<Rightarrow> (st, [])
      | Some img \<Rightarrow>
     (case reference_images of
        None \<Rightarrow> (st, [])
      | Some refs \<Rightarrow>
          if refs = [] then (st, [])
          else
            (case analyze_progress_with_gpt4 w lim refs img api_key of
               (Some result, out) \<Rightarrow> (st\<lparr>progress_result := Some result\<rparr>, out)
             | (None, out) \<Rightarrow> (st, out))))"

section \<open>Notions used to state the properties\<close>

text \<open>The lines of a reply that begin with a given prefix, in order.\<close>

definition lines_with :: "string \<Rightarrow> string \<Rightarrow> string list" where
  "lines_with prefix result_text =
     filter (\<lambda>line. startswith line prefix) (str_split CHR ''\<newline>'' result_text)"

text \<open>The last element of a list, or a default for the empty list.\<close>

definition last_or :: "'a \<Rightarrow> 'a list \<Rightarrow> 'a" where
  "last_or d xs = (case xs of [] \<Rightarrow> d | _ # _ \<Rightarrow> last xs)"

text \<open>\<open>p in s\<close>: the text \<open>p\<close> occurs somewhere in \<open>s\<close>.\<close>

fun occurs_in :: "string \<Rightarrow> string \<Rightarrow> bool" where
  "occurs_in p [] = (p = [])"
| "occurs_in p (c # cs) = (startswith (c # cs) p \<or> occurs_in p cs)"

text \<open>
  The field value as the specification words it: the line with only the leading prefix
  removed and the surrounding whitespace trimmed.
\<close>

definition spec_field_value :: "string \<Rightarrow> string \<Rightarrow> string" where
  "spec_field_value prefix line = str_strip (drop (length prefix) line)"

text \<open>A line that begins with none of the four prefixes.\<close>

definition unrecognised :: "string \<Rightarrow> bool" where
  "unrecognised line =
     (\<not> startswith line ''PROGRESS:'' \<and> \<not> startswith line ''COMPLETED_PARTS:''
      \<and> \<not> startswith line ''MISSING_PARTS:'' \<and> \<not> startswith line ''NOTES:'')"

text \<open>
  Stubs of the outside world for concrete runs. Images are numbers; the JPEG writer
  returns a short byte string that depends on the image; the client is always
  created. In \<open>stub_world\<close> the API answers with the given choices, in
  \<open>offline_world\<close> the call raises a connection error.
\<close>

definition stub_jpeg :: "nat \<Rightarrow> exn + byte list" where
  "stub_jpeg n = Inr [255, 216, of_nat n, 255, 217]"

definition stub_world :: "string option list \<Rightarrow> nat world" where
  "stub_world reply =
     \<lparr>jpeg_save = stub_jpeg,
      openai_client = (\<lambda>api_key. Inr ()),
      chat_create = (\<lambda>req. Inr \<lparr>choices = reply\<rparr>)\<rparr>"

definition offline_world :: "nat world" where
  "offline_world =
     \<lparr>jpeg_save = stub_jpeg,
      openai_client = (\<lambda>api_key. Inr ()),
      chat_create = (\<lambda>req. Inl (OpenAIError ''Connection error.''))\<rparr>"

section \<open>Properties of the scan over the reply\<close>

lemmas eval_defs = parse_response_def parse_line_def startswith_def init_locals_def
  progress_str_def field_text_def str_strip_def isspace_def int_or_zero_def py_int_def
  int_space_def isdigit_def digit_or_underscore_def digits_value_def too_many_digits_def
  lines_with_def spec_field_value_def Let_def

subsection \<open>The scan\<close>

lemma parse_lines_append:
  "parse_lines lim (xs @ ys) v = parse_lines lim ys (parse_lines lim xs v)"
  by (induction xs arbitrary: v) simp_all

lemma parse_lines_snoc:
  "parse_lines lim (xs @ [x]) v = parse_line lim x (parse_lines lim xs v)"
  by (simp add: parse_lines_append)

lemma prefixes_exclusive:
  "startswith l ''PROGRESS:'' \<Longrightarrow> \<not> startswith l ''COMPLETED_PARTS:''"
  "startswith l ''PROGRESS:'' \<Longrightarrow> \<not> startswith l ''MISSING_PARTS:''"
  "startswith l ''PROGRESS:'' \<Longrightarrow> \<not> startswith l ''NOTES:''"
  "startswith l ''COMPLETED_PARTS:'' \<Longrightarrow> \<not> startswith l ''MISSING_PARTS:''"
  "startswith l ''COMPLETED_PARTS:'' \<Longrightarrow> \<not> startswith l ''NOTES:''"
  "startswith l ''MISSING_PARTS:'' \<Longrightarrow> \<not> startswith l ''NOTES:''"
  by (cases l; simp add: startswith_def)+

lemma parse_line_progress:
  "progress_percent (parse_line lim l v) =
     (if startswith l ''PROGRESS:'' then int_or_zero lim (progress_str l)
      else progress_percent v)"
  by (simp add: parse_line_def)

lemma parse_line_completed:
  "completed_var (parse_line lim l v) =
     (if startswith l ''COMPLETED_PARTS:'' then field_text ''COMPLETED_PARTS:'' l
      else completed_var v)"
  using prefixes_exclusive [of l] by (auto simp add: parse_line_def)

lemma parse_line_missing:
  "missing_var (parse_line lim l v) =
     (if startswith l ''MISSING_PARTS:'' then field_text ''MISSING_PARTS:'' l
      else missing_var v)"
  using prefixes_exclusive [of l] by (auto simp add: parse_line_def)

lemma parse_line_notes:
  "notes_var (parse_line lim l v) =
     (if startswith l ''NOTES:'' then field_text ''NOTES:'' l else notes_var v)"
  using prefixes_exclusive [of l] by (auto simp add: parse_line_def)

lemma last_or_snoc: "last_or d (xs @ [x]) = x"
  by (cases xs) (simp_all add: last_or_def)

text \<open>
  A variable that only the lines with prefix \<open>p\<close> assign, each with \<open>f line\<close>, ends
  with the value of the last such line, or keeps its initial value.
\<close>

lemma scan_last:
  assumes step: "\<And>l v. g (parse_line lim l v) = (if startswith l p then f l else g v)"
  shows "g (parse_lines lim ls v) =
           last_or (g v) (map f (filter (\<lambda>l. startswith l p) ls))"
proof (induction ls rule: rev_induct)
  case Nil
  show ?case by (simp add: last_or_def)
next
  case (snoc x xs)
  show ?case
  proof (cases "startswith x p")
    case True
    then show ?thesis
      by (simp add: parse_lines_snoc step last_or_snoc)
  next
    case False
    then show ?thesis using snoc
      by (simp add: parse_lines_snoc step)
  qed
qed

lemma progress_last:
  "progress (parse_response lim txt) =
     last_or 0 (map (\<lambda>l. int_or_zero lim (progress_str l)) (lines_with ''PROGRESS:'' txt))"
  using scan_last [of progress_percent lim "''PROGRESS:''", OF parse_line_progress]
  by (simp add: parse_response_def lines_with_def init_locals_def Let_def)

lemma completed_last:
  "completed (parse_response lim txt) =
     last_or [] (map (field_text ''COMPLETED_PARTS:'') (lines_with ''COMPLETED_PARTS:'' txt))"
  using scan_last [of completed_var lim "''COMPLETED_PARTS:''", OF parse_line_completed]
  by (simp add: parse_response_def lines_with_def init_locals_def Let_def)

lemma missing_last:
  "missing (parse_response lim txt) =
     last_or [] (map (field_text ''MISSING_PARTS:'') (lines_with ''MISSING_PARTS:'' txt))"
  using scan_last [of missing_var lim "''MISSING_PARTS:''", OF parse_line_missing]
  by (simp add: parse_response_def lines_with_def init_locals_def Let_def)

lemma notes_last:
  "notes (parse_response lim txt) =
     last_or [] (map (field_text ''NOTES:'') (lines_with ''NOTES:'' txt))"
  using scan_last [of notes_var lim "''NOTES:''", OF parse_line_notes]
  by (simp add: parse_response_def lines_with_def init_locals_def Let_def)

lemma last_or_map: "xs \<noteq> [] \<Longrightarrow> last_or d (map f xs) = f (last xs)"
  by (cases xs) (simp_all add: last_or_def last_map)

subsection \<open>replace without a match\<close>

lemma replace_absent:
  "p \<noteq> [] \<Longrightarrow> \<not> occurs_in p s \<Longrightarrow> str_replace p new s = s"
  by (induction s) simp_all

lemma replace_leading:
  "p \<noteq> [] \<Longrightarrow> startswith s p \<Longrightarrow>
     str_replace p [] s = str_replace p [] (drop (length p) s)"
  by (cases s) (simp_all add: startswith_def)

lemma field_text_spec:
  assumes "p \<noteq> []" "startswith line p" "\<not> occurs_in p (drop (length p) line)"
  shows "field_text p line = spec_field_value p line"
  using assms by (simp add: field_text_def spec_field_value_def replace_leading replace_absent)

section \<open>Base64 round trip\<close>

lemma b64_index_char_all: "list_all (\<lambda>i. b64_index (b64_char i) = Some i \<and> b64_char i \<noteq> CHR ''='') [0..<64]"
  by code_simp

lemma b64_index_char: "i < 64 \<Longrightarrow> b64_index (b64_char i) = Some i"
  using b64_index_char_all by (simp add: list_all_iff)

lemma b64_char_not_pad: "i < 64 \<Longrightarrow> b64_char i \<noteq> CHR ''=''"
  using b64_index_char_all by (simp add: list_all_iff)

lemma sextets:
  fixes n :: nat
  assumes "n < 16777216"
  shows "(n div 262144 mod 64) * 262144 + (n div 4096 mod 64) * 4096 + (n div 64 mod 64) * 64 + n mod 64 = n"
    and "(n div 262144 mod 64) * 4096 + (n div 4096 mod 64) * 64 + n div 64 mod 64 = n div 64"
    and "(n div 262144 mod 64) * 64 + n div 4096 mod 64 = n div 4096"
proof -
  define a where "a = n div 64"
  define b where "b = a div 64"
  define c where "c = b div 64"
  have 1: "n = a * 64 + n mod 64" by (simp add: a_def)
  have 2: "a = b * 64 + a mod 64" by (simp add: b_def)
  have 3: "b = c * 64 + b mod 64" by (simp add: c_def)
  have b: "n div 4096 = b" by (simp add: a_def b_def div_mult2_eq)
  have c: "n div 262144 = c" by (simp add: a_def b_def c_def div_mult2_eq)
  have "c < 64" using assms unfolding c [symmetric] by simp
  then have 4: "c mod 64 = c" by simp
  show "(n div 262144 mod 64) * 262144 + (n div 4096 mod 64) * 4096 + (n div 64 mod 64) * 64 + n mod 64 = n"
    unfolding b c 4 a_def [symmetric] using 1 2 3 by linarith
  show "(n div 262144 mod 64) * 4096 + (n div 4096 mod 64) * 64 + n div 64 mod 64 = n div 64"
    unfolding b c 4 a_def [symmetric] using 2 3 by linarith
  show "(n div 262144 mod 64) * 64 + n div 4096 mod 64 = n div 4096"
    unfolding b c 4 using 3 by linarith
qed

lemma octets:
  fixes x y z :: nat
  assumes "x < 256" "y < 256" "z < 256"
  shows "(x * 65536 + y * 256 + z) div 65536 mod 256 = x"
    and "(x * 65536 + y * 256 + z) div 256 mod 256 = y"
    and "(x * 65536 + y * 256 + z) mod 256 = z"
    and "x * 65536 + y * 256 + z < 16777216"
proof -
  have "(x * 65536 + y * 256 + z) div 256 = x * 256 + y"
    using assms by simp
  moreover have "(x * 65536 + y * 256 + z) div 65536 = x"
    using assms by simp
  ultimately show "(x * 65536 + y * 256 + z) div 65536 mod 256 = x"
    and "(x * 65536 + y * 256 + z) div 256 mod 256 = y"
    using assms by simp_all
  have "x * 65536 + y * 256 + z = (x * 256 + y) * 256 + z" by simp
  then have "(x * 65536 + y * 256 + z) mod 256 = z mod 256"
    by (simp only: mod_mult_self3)
  then show "(x * 65536 + y * 256 + z) mod 256 = z" using assms by simp
  show "x * 65536 + y * 256 + z < 16777216" using assms by linarith
qed

lemma unat_byte: "unat (a :: byte) < 256"
  using unsigned_less [of a] by simp

lemma decode_full:
  assumes "i1 < 64" "i2 < 64" "i3 < 64" "i4 < 64"
  shows "b64decode (b64_char i1 # b64_char i2 # b64_char i3 # b64_char i4 # cs) =
     (case b64decode cs of None \<Rightarrow> None
      | Some r \<Rightarrow>
          Some (of_nat ((i1 * 262144 + i2 * 4096 + i3 * 64 + i4) div 65536 mod 256)
                # of_nat ((i1 * 262144 + i2 * 4096 + i3 * 64 + i4) div 256 mod 256)
                # of_nat ((i1 * 262144 + i2 * 4096 + i3 * 64 + i4) mod 256) # r))"
  using assms by (simp add: b64_index_char b64_char_not_pad Let_def)

lemma decode_pad1:
  assumes "i1 < 64" "i2 < 64" "i3 < 64"
  shows "b64decode [b64_char i1, b64_char i2, b64_char i3, CHR ''=''] =
     Some [of_nat ((i1 * 4096 + i2 * 64 + i3) div 1024 mod 256),
           of_nat ((i1 * 4096 + i2 * 64 + i3) div 4 mod 256)]"
  using assms by (simp add: b64_index_char b64_char_not_pad Let_def)

lemma decode_pad2:
  assumes "i1 < 64" "i2 < 64"
  shows "b64decode [b64_char i1, b64_char i2, CHR ''='', CHR ''=''] =
     Some [of_nat ((i1 * 64 + i2) div 16 mod 256)]"
  using assms by (simp add: b64_index_char)

lemma decode_quad:
  assumes "n < 16777216"
  shows "b64decode (b64_quad n @ cs) =
     (case b64decode cs of None \<Rightarrow> None
      | Some r \<Rightarrow> Some (of_nat (n div 65536 mod 256) # of_nat (n div 256 mod 256) # of_nat (n mod 256) # r))"
proof -
  define i1 i2 i3 i4 where "i1 = n div 262144 mod 64" and "i2 = n div 4096 mod 64"
    and "i3 = n div 64 mod 64" and "i4 = n mod 64"
  have lt: "i1 < 64" "i2 < 64" "i3 < 64" "i4 < 64"
    by (simp_all add: i1_def i2_def i3_def i4_def)
  have n: "i1 * 262144 + i2 * 4096 + i3 * 64 + i4 = n"
    unfolding i1_def i2_def i3_def i4_def by (rule sextets(1) [OF assms])
  have "b64_quad n @ cs = b64_char i1 # b64_char i2 # b64_char i3 # b64_char i4 # cs"
    by (simp add: b64_quad_def i1_def i2_def i3_def i4_def)
  then show ?thesis
    by (simp only: decode_full [OF lt] n)
qed

lemma decode_two:
  assumes "n < 16777216"
  shows "b64decode (take 3 (b64_quad n) @ ''='') =
     Some [of_nat (n div 65536 mod 256), of_nat (n div 256 mod 256)]"
proof -
  define i1 i2 i3 where "i1 = n div 262144 mod 64" and "i2 = n div 4096 mod 64"
    and "i3 = n div 64 mod 64"
  have lt: "i1 < 64" "i2 < 64" "i3 < 64"
    by (simp_all add: i1_def i2_def i3_def)
  have n: "i1 * 4096 + i2 * 64 + i3 = n div 64"
    unfolding i1_def i2_def i3_def by (rule sextets(2) [OF assms])
  have d: "n div 64 div 1024 = n div 65536" "n div 64 div 4 = n div 256"
    by (simp_all add: div_mult2_eq [symmetric])
  have "take 3 (b64_quad n) @ ''='' = [b64_char i1, b64_char i2, b64_char i3, CHR ''='']"
    by (simp add: b64_quad_def i1_def i2_def i3_def)
  then show ?thesis
    by (simp only: decode_pad1 [OF lt] n d)
qed

lemma decode_one:
  assumes "n < 16777216"
  shows "b64decode (take 2 (b64_quad n) @ ''=='') = Some [of_nat (n div 65536 mod 256)]"
proof -
  define i1 i2 where "i1 = n div 262144 mod 64" and "i2 = n div 4096 mod 64"
  have lt: "i1 < 64" "i2 < 64"
    by (simp_all add: i1_def i2_def)
  have n: "i1 * 64 + i2 = n div 4096"
    unfolding i1_def i2_def by (rule sextets(3) [OF assms])
  have d: "n div 4096 div 16 = n div 65536"
    by (simp add: div_mult2_eq [symmetric])
  have "take 2 (b64_quad n) @ ''=='' = [b64_char i1, b64_char i2, CHR ''='', CHR ''='']"
    by (simp add: b64_quad_def i1_def i2_def)
  then show ?thesis
    by (simp only: decode_pad2 [OF lt] n d)
qed

lemma b64_roundtrip: "b64decode (b64encode bs) = Some bs"
proof (induction bs rule: b64encode.induct)
  case 1
  show ?case by simp
next
  case (2 a)
  have z: "(0::nat) < 256" by simp
  note o = octets [OF unat_byte [of a] z z]
  have "b64decode (b64encode [a]) = Some [of_nat (unat a)]"
    using o(1) o(4) by (simp add: decode_one)
  then show ?case by simp
next
  case (3 a b)
  have z: "(0::nat) < 256" by simp
  note o = octets [OF unat_byte [of a] unat_byte [of b] z]
  have "b64decode (b64encode [a, b]) = Some [of_nat (unat a), of_nat (unat b)]"
    using o by (simp add: decode_two)
  then show ?case by simp
next
  case (4 a b c bs)
  note o = octets [OF unat_byte [of a] unat_byte [of b] unat_byte [of c]]
  have "b64decode (b64encode (a # b # c # bs)) =
          Some (of_nat (unat a) # of_nat (unat b) # of_nat (unat c) # bs)"
    using o 4 by (simp add: decode_quad)
  then show ?case by simp
qed

text \<open>
  Claim C9. Whenever the JPEG writer returns a byte stream for an image, the encoder
  returns the base64 text of exactly these bytes, and decoding that text (also when
  taken from the data URI built around it) gives the byte stream back, byte for byte.
\<close>

theorem encode_image_roundtrip:
  assumes "jpeg_save w img = Inr jpeg_bytes"
  shows "encode_image_to_base64 w img = Inr (b64encode jpeg_bytes)
       \<and> b64decode (b64encode jpeg_bytes) = Some jpeg_bytes
       \<and> b64decode (drop (length ''data:image/jpeg;base64,'')
                       (url (image_part (b64encode jpeg_bytes)))) = Some jpeg_bytes"
  using assms by (simp add: encode_image_to_base64_def image_part_def b64_roundtrip)

theorem encode_image_roundtrip_witness:
  "jpeg_save (stub_world []) 7 = Inr [255, 216, 7, 255, 217]
   \<and> encode_image_to_base64 (stub_world []) 7 = Inr ''/9gH/9k=''
   \<and> b64decode ''/9gH/9k='' = Some [255, 216, 7, 255, 217]"
proof -
  have j: "jpeg_save (stub_world []) 7 = Inr [255, 216, 7, 255, 217]"
    by (simp add: stub_world_def stub_jpeg_def)
  have e: "b64encode [255, 216, 7, 255, 217] = ''/9gH/9k=''"
    by (simp add: b64_quad_def b64_char_def b64_alphabet_def)
  show ?thesis
    using encode_image_roundtrip [OF j] j by (simp only: e)
qed

section \<open>The request sent to the model\<close>

lemma add_reference_images_ok:
  assumes "\<forall>img \<in> set refs. jpeg_save w img = Inr (jp img)"
  shows "add_reference_images w i refs parts =
           Inr (parts @ concat (map (\<lambda>(k, img). [Text (reference_label k), image_part (b64encode (jp img))])
                                 (zip [i..<i + length refs] refs)))"
  using assms
proof (induction refs arbitrary: i parts)
  case Nil
  show ?case by simp
next
  case (Cons r rs)
  have r: "encode_image_to_base64 w r = Inr (b64encode (jp r))"
    using Cons.prems by (simp add: encode_image_to_base64_def)
  have rs: "\<forall>img \<in> set rs. jpeg_save w img = Inr (jp img)"
    using Cons.prems by simp
  have up: "[i..<i + length (r # rs)] = i # [Suc i..<Suc i + length rs]"
    by (subst upt_rec) simp
  show ?case
    by (simp only: add_reference_images.simps r sum.case Cons.IH [OF rs] up) simp
qed

lemma build_request_succeeds:
  assumes "\<forall>img \<in> set (current_img # reference_images). jpeg_save w img = Inr (jp img)"
  shows "\<exists>req. build_request w reference_images current_img = Inr req"
proof -
  have cur: "encode_image_to_base64 w current_img = Inr (b64encode (jp current_img))"
    using assms by (simp add: encode_image_to_base64_def)
  have refs: "\<forall>img \<in> set reference_images. jpeg_save w img = Inr (jp img)"
    using assms by simp
  show ?thesis
    by (simp add: build_request_def cur add_reference_images_ok [OF refs])
qed

text \<open>The index in a label is written in decimal, without leading zeros.\<close>

lemma digit_char_code: "d < 10 \<Longrightarrow> (of_char (digit_char d) :: nat) = 48 + d"
proof -
  have "list_all (\<lambda>d. (of_char (digit_char d) :: nat) = 48 + d) [0..<10]"
    by (simp add: digit_char_def upt_conv_Cons)
  then show "d < 10 \<Longrightarrow> (of_char (digit_char d) :: nat) = 48 + d"
    by (simp add: list_all_iff)
qed

lemma digits_value_snoc:
  "digits_value (ds @ [c]) = 10 * digits_value ds + (of_char c - 48)"
  by (simp add: digits_value_def)

lemma isdigit_digit_char: "d < 10 \<Longrightarrow> isdigit (digit_char d)"
  using digit_char_code [of d] by (simp add: isdigit_def)

lemma str_nat_step:
  "\<not> n < 10 \<Longrightarrow> str_nat n = str_nat (n div 10) @ [digit_char (n mod 10)]"
  "n < 10 \<Longrightarrow> str_nat n = [digit_char n]"
  by (subst str_nat.simps, simp)+

lemma str_nat_digits: "list_all isdigit (str_nat n)"
proof (induction n rule: str_nat.induct)
  case (1 n)
  show ?case
  proof (cases "n < 10")
    case True
    then show ?thesis
      by (simp add: str_nat_step(2) isdigit_digit_char del: str_nat.simps)
  next
    case False
    have "n mod 10 < 10" by simp
    then have "isdigit (digit_char (n mod 10))" by (rule isdigit_digit_char)
    then show ?thesis
      using 1 [OF False] by (simp add: str_nat_step(1) [OF False] del: str_nat.simps)
  qed
qed

lemma str_nat_value: "digits_value (str_nat n) = n"
proof (induction n rule: str_nat.induct)
  case (1 n)
  show ?case
  proof (cases "n < 10")
    case True
    then show ?thesis
      using digit_char_code [OF True]
      by (simp only: str_nat_step(2)) (simp add: digits_value_def)
  next
    case False
    have m: "n mod 10 < 10" by simp
    show ?thesis
      using 1 [OF False] digit_char_code [OF m]
      by (simp only: str_nat_step(1) [OF False] digits_value_snoc) simp
  qed
qed

text \<open>
  Claim C8. With N reference images and one current image, all of which the JPEG
  writer accepts, the request holds exactly one message, of role user, whose content
  is: the instruction text; then for each reference image, in the given order and
  numbered from 1, the label "Reference Image i:" and the image as a data URI
  \<open>data:image/jpeg;base64,...\<close> with detail high; then the label "User's Current
  Progress Image:" and the current image in the same form. The model identifier is
  fixed and the maximum number of output tokens is 500.
\<close>

theorem request_layout:
  assumes "\<forall>img \<in> set (current_img # reference_images). jpeg_save w img = Inr (jp img)"
  shows "build_request w reference_images current_img =
     Inr \<lparr>model = ''gpt-4o-mini'',
          messages =
            [\<lparr>role = ''user'',
              content =
                [Text instruction]
                @ concat (map (\<lambda>(i, img).
                     [Text (''\<newline>\<newline>Reference Image '' @ str_nat i @ '':''),
                      ImageUrl (''data:image/jpeg;base64,'' @ b64encode (jp img)) ''high''])
                   (zip [1..<Suc (length reference_images)] reference_images))
                @ [Text ''\<newline>\<newline>User's Current Progress Image:'',
                   ImageUrl (''data:image/jpeg;base64,'' @ b64encode (jp current_img)) ''high'']\<rparr>],
          max_tokens = 500\<rparr>"
proof -
  have cur: "encode_image_to_base64 w current_img = Inr (b64encode (jp current_img))"
    using assms by (simp add: encode_image_to_base64_def)
  have refs: "\<forall>img \<in> set reference_images. jpeg_save w img = Inr (jp img)"
    using assms by simp
  show ?thesis
    by (simp add: build_request_def cur add_reference_images_ok [OF refs]
          reference_label_def image_part_def)
qed

lemma stub_jpeg_ok: "\<forall>img \<in> set imgs. jpeg_save (stub_world reply) img = Inr [255, 216, of_nat img, 255, 217]"
  by (simp add: stub_world_def stub_jpeg_def)

theorem request_layout_witness:
  "build_request (stub_world []) [7, 8] 9 =
     Inr \<lparr>model = ''gpt-4o-mini'',
          messages =
            [\<lparr>role = ''user'',
              content =
                [Text instruction,
                 Text ''\<newline>\<newline>Reference Image 1:'',
                 ImageUrl ''data:image/jpeg;base64,/9gH/9k='' ''high'',
                 Text ''\<newline>\<newline>Reference Image 2:'',
                 ImageUrl ''data:image/jpeg;base64,/9gI/9k='' ''high'',
                 Text ''\<newline>\<newline>User's Current Progress Image:'',
                 ImageUrl ''data:image/jpeg;base64,/9gJ/9k='' ''high'']\<rparr>],
          max_tokens = 500\<rparr>"
proof -
  have up: "[1..<Suc (length [7::nat, 8])] = [1, 2]"
    by (simp add: upt_conv_Cons)
  show ?thesis
    using request_layout [of 9 "[7, 8]" "stub_world []" "\<lambda>n. [255, 216, of_nat n, 255, 217]",
        OF stub_jpeg_ok]
    by (simp add: up b64_quad_def b64_char_def b64_alphabet_def digit_char_def)
qed

section \<open>The analysis call\<close>

lemma build_request_stub: "\<exists>req. build_request (stub_world reply) refs img = Inr req"
  using build_request_succeeds [of img refs "stub_world reply", OF stub_jpeg_ok] .

lemma analyze_try_stub:
  "analyze_try (stub_world (Some txt # rest)) lim refs img api_key = Inr (parse_response lim txt)"
proof -
  obtain req where "build_request (stub_world (Some txt # rest)) refs img = Inr req"
    using build_request_stub by blast
  then show ?thesis
    by (simp add: analyze_try_def) (simp add: stub_world_def)
qed

lemma analyze_try_offline:
  "analyze_try offline_world lim refs img api_key = Inl (OpenAIError ''Connection error.'')"
proof -
  have "\<forall>i \<in> set (img # refs). jpeg_save offline_world i = Inr [255, 216, of_nat i, 255, 217]"
    by (simp add: offline_world_def stub_jpeg_def)
  from build_request_succeeds [OF this]
  obtain req where "build_request offline_world refs img = Inr req" by blast
  then show ?thesis
    by (simp add: analyze_try_def) (simp add: offline_world_def)
qed


lemma analyze_try_Inr:
  assumes "analyze_try w lim refs img api_key = Inr r"
  shows "\<exists>req resp txt rest. build_request w refs img = Inr req \<and> chat_create w req = Inr resp
           \<and> choices resp = Some txt # rest \<and> r = parse_response lim txt"
  using assms
  by (auto simp add: analyze_try_def split: sum.splits list.splits option.splits)

text \<open>Every way in which the body of the \<open>try\<close> block ends with an exception.\<close>

lemma analyze_try_failures:
  "(\<exists>e. analyze_try w lim refs img api_key = Inl e) =
     ((\<exists>e. openai_client w api_key = Inl e)
      \<or> (\<exists>e. build_request w refs img = Inl e)
      \<or> (\<exists>req. build_request w refs img = Inr req \<and>
            ((\<exists>e. chat_create w req = Inl e)
             \<or> (\<exists>resp. chat_create w req = Inr resp \<and>
                   (choices resp = [] \<or> (\<exists>rest. choices resp = None # rest))))))"
  by (auto simp add: analyze_try_def split: sum.splits list.splits option.splits)

text \<open>
  Claim C6. The \<open>raw_response\<close> field of a parsed result is the reply text itself,
  whatever the scan made of it; and whenever the analysis returns a result, its
  \<open>raw_response\<close> is the content of the first choice of the API response, unmodified.
\<close>

theorem raw_response_verbatim:
  "raw_response (parse_response lim txt) = txt
   \<and> (analyze_try w lim refs img api_key = Inr r \<longrightarrow>
        (\<exists>req resp rest. build_request w refs img = Inr req \<and> chat_create w req = Inr resp
           \<and> choices resp = Some (raw_response r) # rest))"
proof
  show "raw_response (parse_response lim txt) = txt"
    by (simp add: parse_response_def Let_def)
  show "analyze_try w lim refs img api_key = Inr r \<longrightarrow>
        (\<exists>req resp rest. build_request w refs img = Inr req \<and> chat_create w req = Inr resp
           \<and> choices resp = Some (raw_response r) # rest)"
  proof
    assume "analyze_try w lim refs img api_key = Inr r"
    from analyze_try_Inr [OF this]
    obtain req resp t rest where "build_request w refs img = Inr req"
      "chat_create w req = Inr resp" "choices resp = Some t # rest" "r = parse_response lim t"
      by blast
    then show "\<exists>req resp rest. build_request w refs img = Inr req \<and> chat_create w req = Inr resp
           \<and> choices resp = Some (raw_response r) # rest"
      by (simp add: parse_response_def Let_def)
  qed
qed

theorem raw_response_verbatim_witness:
  "analyze_try (stub_world [Some ''I cannot tell.'']) 4300 [1] 2 ''key''
     = Inr (parse_response 4300 ''I cannot tell.'')
   \<and> raw_response (parse_response 4300 ''I cannot tell.'') = ''I cannot tell.''
   \<and> (\<exists>req resp rest. build_request (stub_world [Some ''I cannot tell.'']) [1] 2 = Inr req
         \<and> chat_create (stub_world [Some ''I cannot tell.'']) req = Inr resp
         \<and> choices resp = Some ''I cannot tell.'' # rest)"
proof -
  have a: "analyze_try (stub_world [Some ''I cannot tell.'']) 4300 [1] 2 ''key''
             = Inr (parse_response 4300 ''I cannot tell.'')"
    by (rule analyze_try_stub)
  from raw_response_verbatim [of 4300 "''I cannot tell.''" "stub_world [Some ''I cannot tell.'']"
      "[1]" 2 "''key''" "parse_response 4300 ''I cannot tell.''"] a
  have "raw_response (parse_response 4300 ''I cannot tell.'') = ''I cannot tell.''
        \<and> (\<exists>req resp rest. build_request (stub_world [Some ''I cannot tell.'']) [1] 2 = Inr req
              \<and> chat_create (stub_world [Some ''I cannot tell.'']) req = Inr resp
              \<and> choices resp
                   = Some (raw_response (parse_response 4300 ''I cannot tell.'')) # rest)"
    by blast
  then show ?thesis
    using a by (elim conjE) (simp only: simp_thms)
qed

text \<open>
  Claim C7. Whenever the body of the \<open>try\<close> block raises (the client cannot be
  created, an image cannot be encoded, the API call fails, or the response has no
  choice or no content), \<open>analyze_progress_with_gpt4\<close> shows one error message and
  returns no result, and the button handler leaves the session state, with the
  earlier result and the captured image, as it was.
\<close>

theorem failure_leaves_state:
  assumes "analyze_try w lim refs img api_key = Inl e"
    and "current_image st = Some img" and "refs \<noteq> []"
  shows "analyze_progress_with_gpt4 w lim refs img api_key
           = (None, [StError (''Error analyzing images: '' @ exn_str e)])
       \<and> analyze_button w lim (Some refs) api_key st
           = (st, [StError (''Error analyzing images: '' @ exn_str e)])"
  using assms by (simp add: analyze_progress_with_gpt4_def analyze_button_def)

theorem failure_leaves_state_witness:
  "analyze_try offline_world 4300 [1, 2, 3] 4 ''key'' = Inl (OpenAIError ''Connection error.'')
   \<and> analyze_progress_with_gpt4 offline_world 4300 [1, 2, 3] 4 ''key''
        = (None, [StError ''Error analyzing images: Connection error.''])
   \<and> analyze_button offline_world 4300 (Some [1, 2, 3]) ''key''
        \<lparr>current_image = Some 4, progress_result = Some (parse_response 4300 ''PROGRESS: 10%''),
         captured_frame = None\<rparr>
        = (\<lparr>current_image = Some 4, progress_result = Some (parse_response 4300 ''PROGRESS: 10%''),
            captured_frame = None\<rparr>,
           [StError ''Error analyzing images: Connection error.''])"
  using failure_leaves_state [of offline_world 4300 "[1, 2, 3]" 4 "''key''"
      "OpenAIError ''Connection error.''"
      "\<lparr>current_image = Some 4, progress_result = Some (parse_response 4300 ''PROGRESS: 10%''),
         captured_frame = None\<rparr>"]
    analyze_try_offline [of 4300 "[1, 2, 3]" 4 "''key''"]
  by simp

section \<open>What the scan stores\<close>

text \<open>
  Claim C3. When two or more lines of the reply begin with \<open>PROGRESS:\<close>, the stored
  progress is the one computed from the last of them.
\<close>

theorem last_progress_line_wins:
  assumes "2 \<le> length (lines_with ''PROGRESS:'' txt)"
  shows "progress (parse_response lim txt)
           = int_or_zero lim (progress_str (last (lines_with ''PROGRESS:'' txt)))"
proof -
  have "lines_with ''PROGRESS:'' txt \<noteq> []"
    using assms by auto
  then show ?thesis
    by (simp add: progress_last last_or_map)
qed

theorem last_progress_line_wins_witness:
  "lines_with ''PROGRESS:'' ''PROGRESS: 10%\<newline>NOTES: recount\<newline>PROGRESS: 90%''
     = [''PROGRESS: 10%'', ''PROGRESS: 90%'']
   \<and> progress (parse_response 4300 ''PROGRESS: 10%\<newline>NOTES: recount\<newline>PROGRESS: 90%'') = 90"
proof -
  have l: "lines_with ''PROGRESS:'' ''PROGRESS: 10%\<newline>NOTES: recount\<newline>PROGRESS: 90%''
             = [''PROGRESS: 10%'', ''PROGRESS: 90%'']"
    by (simp add: lines_with_def startswith_def)
  have v: "int_or_zero 4300 (progress_str ''PROGRESS: 90%'') = 90"
    by (simp add: eval_defs)
  have "2 \<le> length (lines_with ''PROGRESS:'' ''PROGRESS: 10%\<newline>NOTES: recount\<newline>PROGRESS: 90%'')"
    by (simp only: l) simp
  from last_progress_line_wins [OF this, of 4300]
  have "progress (parse_response 4300 ''PROGRESS: 10%\<newline>NOTES: recount\<newline>PROGRESS: 90%'')
          = int_or_zero 4300 (progress_str (last [''PROGRESS: 10%'', ''PROGRESS: 90%'']))"
    by (simp only: l)
  also have "\<dots> = 90"
    using v by simp
  finally show ?thesis
    using l by simp
qed



lemma parse_lines_skip:
  assumes "parse_line lim l (parse_lines lim xs v) = parse_lines lim xs v"
  shows "parse_lines lim (xs @ l # ys) v = parse_lines lim (xs @ ys) v"
  using assms by (simp add: parse_lines_append)

text \<open>
  Claim C10. Recognition is anchored at the first character of the line and
  case-sensitive: a line that begins with none of the four prefixes changes no
  variable of the scan, so the reply parses as if the line were not there; and a line
  that does not begin with the prefix of a field leaves that field as it was, whatever
  else the line contains.
\<close>

theorem unrecognised_line_ignored:
  "(unrecognised l \<longrightarrow>
      parse_line lim l v = v
      \<and> parse_lines lim (xs @ l # ys) v = parse_lines lim (xs @ ys) v)
   \<and> (\<not> startswith l ''PROGRESS:'' \<longrightarrow>
        progress_percent (parse_line lim l v) = progress_percent v)
   \<and> (\<not> startswith l ''COMPLETED_PARTS:'' \<longrightarrow>
        completed_var (parse_line lim l v) = completed_var v)
   \<and> (\<not> startswith l ''MISSING_PARTS:'' \<longrightarrow>
        missing_var (parse_line lim l v) = missing_var v)
   \<and> (\<not> startswith l ''NOTES:'' \<longrightarrow>
        notes_var (parse_line lim l v) = notes_var v)"
proof (intro conjI impI)
  assume u: "unrecognised l"
  then show "parse_line lim l v = v"
    by (simp add: unrecognised_def parse_line_def)
  from u have "parse_line lim l (parse_lines lim xs v) = parse_lines lim xs v"
    by (simp add: unrecognised_def parse_line_def)
  then show "parse_lines lim (xs @ l # ys) v = parse_lines lim (xs @ ys) v"
    by (rule parse_lines_skip)
next
  assume "\<not> startswith l ''PROGRESS:''"
  then show "progress_percent (parse_line lim l v) = progress_percent v"
    by (simp add: parse_line_progress)
next
  assume "\<not> startswith l ''COMPLETED_PARTS:''"
  then show "completed_var (parse_line lim l v) = completed_var v"
    by (simp add: parse_line_completed)
next
  assume "\<not> startswith l ''MISSING_PARTS:''"
  then show "missing_var (parse_line lim l v) = missing_var v"
    by (simp add: parse_line_missing)
next
  assume "\<not> startswith l ''NOTES:''"
  then show "notes_var (parse_line lim l v) = notes_var v"
    by (simp add: parse_line_notes)
qed

theorem unrecognised_line_ignored_witness:
  "unrecognised '' PROGRESS: 50%''
   \<and> unrecognised ''progress: 50%''
   \<and> parse_line 4300 '' PROGRESS: 50%'' init_locals = init_locals
   \<and> parse_line 4300 ''progress: 50%'' init_locals = init_locals
   \<and> parse_lines 4300 ([''PROGRESS: 10%''] @ '' PROGRESS: 50%'' # [''NOTES: ok'']) init_locals
        = parse_lines 4300 ([''PROGRESS: 10%''] @ [''NOTES: ok'']) init_locals
   \<and> progress_percent (parse_line 4300 ''NOTES: PROGRESS: 50%'' init_locals) = 0"
proof -
  have u: "unrecognised '' PROGRESS: 50%''" "unrecognised ''progress: 50%''"
    by (simp_all add: unrecognised_def startswith_def)
  have n: "\<not> startswith ''NOTES: PROGRESS: 50%'' ''PROGRESS:''"
    by (simp add: startswith_def)
  show ?thesis
    using u n
      unrecognised_line_ignored [of "'' PROGRESS: 50%''" 4300 init_locals "[''PROGRESS: 10%'']" "[''NOTES: ok'']"]
      unrecognised_line_ignored [of "''progress: 50%''" 4300 init_locals]
      unrecognised_line_ignored [of "''NOTES: PROGRESS: 50%''" 4300 init_locals]
    by (simp add: init_locals_def)
qed




section \<open>Stripping the prefix\<close>

lemma lines_with_single:
  assumes "lines_with p txt = [l]"
  shows "startswith l p"
proof -
  have "l \<in> set (lines_with p txt)" using assms by simp
  then show ?thesis by (simp add: lines_with_def)
qed

text \<open>
  On a reply with exactly one line for a text field, in which the prefix does not occur
  again after the start of that line, the stored text is the line with the leading
  prefix removed and the whitespace trimmed.
\<close>

lemma text_field_without_repeat:
  "lines_with ''COMPLETED_PARTS:'' txt = [l] \<Longrightarrow>
     \<not> occurs_in ''COMPLETED_PARTS:'' (drop (length ''COMPLETED_PARTS:'') l) \<Longrightarrow>
     completed (parse_response lim txt) = spec_field_value ''COMPLETED_PARTS:'' l"
  "lines_with ''MISSING_PARTS:'' txt = [l] \<Longrightarrow>
     \<not> occurs_in ''MISSING_PARTS:'' (drop (length ''MISSING_PARTS:'') l) \<Longrightarrow>
     missing (parse_response lim txt) = spec_field_value ''MISSING_PARTS:'' l"
  "lines_with ''NOTES:'' txt = [l] \<Longrightarrow>
     \<not> occurs_in ''NOTES:'' (drop (length ''NOTES:'') l) \<Longrightarrow>
     notes (parse_response lim txt) = spec_field_value ''NOTES:'' l"
proof -
  show "lines_with ''COMPLETED_PARTS:'' txt = [l] \<Longrightarrow>
     \<not> occurs_in ''COMPLETED_PARTS:'' (drop (length ''COMPLETED_PARTS:'') l) \<Longrightarrow>
     completed (parse_response lim txt) = spec_field_value ''COMPLETED_PARTS:'' l"
    using field_text_spec [of "''COMPLETED_PARTS:''" l] lines_with_single [of "''COMPLETED_PARTS:''" "txt" l]
    by (simp add: completed_last last_or_def)
  show "lines_with ''MISSING_PARTS:'' txt = [l] \<Longrightarrow>
     \<not> occurs_in ''MISSING_PARTS:'' (drop (length ''MISSING_PARTS:'') l) \<Longrightarrow>
     missing (parse_response lim txt) = spec_field_value ''MISSING_PARTS:'' l"
    using field_text_spec [of "''MISSING_PARTS:''" l] lines_with_single [of "''MISSING_PARTS:''" "txt" l]
    by (simp add: missing_last last_or_def)
  show "lines_with ''NOTES:'' txt = [l] \<Longrightarrow>
     \<not> occurs_in ''NOTES:'' (drop (length ''NOTES:'') l) \<Longrightarrow>
     notes (parse_response lim txt) = spec_field_value ''NOTES:'' l"
    using field_text_spec [of "''NOTES:''" l] lines_with_single [of "''NOTES:''" "txt" l]
    by (simp add: notes_last last_or_def)
qed

text \<open>
  Claim C1. The stub reply of the specification parses as stated, and so does every
  reply of one line per field whose lines do not repeat their prefix
  (\<open>text_field_without_repeat\<close>). But \<open>replace\<close> removes every occurrence of the
  prefix, so on the reply below, which has exactly one line for each of the four
  prefixes, the stored notes are not the line with its prefix stripped: the second
  \<open>NOTES:\<close> is gone as well.
\<close>

theorem one_line_per_field_repeated_prefix:
  "parse_response 4300
     ''PROGRESS: 45%\<newline>COMPLETED_PARTS: base plate\<newline>MISSING_PARTS: roof\<newline>NOTES: good start''
     = \<lparr>progress = 45, completed = ''base plate'', missing = ''roof'', notes = ''good start'',
        raw_response =
          ''PROGRESS: 45%\<newline>COMPLETED_PARTS: base plate\<newline>MISSING_PARTS: roof\<newline>NOTES: good start''\<rparr>
   \<and> lines_with ''PROGRESS:''
         ''PROGRESS: 45%\<newline>COMPLETED_PARTS: base plate\<newline>MISSING_PARTS: roof\<newline>NOTES: see NOTES: below''
       = [''PROGRESS: 45%'']
   \<and> lines_with ''COMPLETED_PARTS:''
         ''PROGRESS: 45%\<newline>COMPLETED_PARTS: base plate\<newline>MISSING_PARTS: roof\<newline>NOTES: see NOTES: below''
       = [''COMPLETED_PARTS: base plate'']
   \<and> lines_with ''MISSING_PARTS:''
         ''PROGRESS: 45%\<newline>COMPLETED_PARTS: base plate\<newline>MISSING_PARTS: roof\<newline>NOTES: see NOTES: below''
       = [''MISSING_PARTS: roof'']
   \<and> lines_with ''NOTES:''
         ''PROGRESS: 45%\<newline>COMPLETED_PARTS: base plate\<newline>MISSING_PARTS: roof\<newline>NOTES: see NOTES: below''
       = [''NOTES: see NOTES: below'']
   \<and> notes (parse_response 4300
         ''PROGRESS: 45%\<newline>COMPLETED_PARTS: base plate\<newline>MISSING_PARTS: roof\<newline>NOTES: see NOTES: below'')
       = ''see  below''
   \<and> spec_field_value ''NOTES:'' ''NOTES: see NOTES: below'' = ''see NOTES: below''"
  by (simp add: eval_defs)

text \<open>
  Claim C5. On a line that begins with \<open>COMPLETED_PARTS:\<close> and repeats that text
  later, the stored value is not the line with only the leading prefix removed: the
  repeated occurrence is removed too. The same holds for \<open>MISSING_PARTS:\<close> and
  \<open>NOTES:\<close>.
\<close>

theorem repeated_prefix_removed:
  "startswith ''COMPLETED_PARTS: walls (see COMPLETED_PARTS: list)'' ''COMPLETED_PARTS:''
   \<and> completed (parse_response 4300 ''COMPLETED_PARTS: walls (see COMPLETED_PARTS: list)'')
       = ''walls (see  list)''
   \<and> spec_field_value ''COMPLETED_PARTS:'' ''COMPLETED_PARTS: walls (see COMPLETED_PARTS: list)''
       = ''walls (see COMPLETED_PARTS: list)''
   \<and> missing (parse_response 4300 ''MISSING_PARTS: roof, MISSING_PARTS: door'')
       = ''roof,  door''
   \<and> spec_field_value ''MISSING_PARTS:'' ''MISSING_PARTS: roof, MISSING_PARTS: door''
       = ''roof, MISSING_PARTS: door''
   \<and> notes (parse_response 4300 ''NOTES:NOTES:'') = []
   \<and> spec_field_value ''NOTES:'' ''NOTES:NOTES:'' = ''NOTES:''"
  by (simp add: eval_defs)

end
